theory Spec2Isabelle
  imports Main "HOL-Library.Sublist"
begin

section \<open>The streaming chat pipeline of ChatBox.tsx\<close>

text \<open>
  The development embeds \<^verbatim>\<open>sendMessage\<close> and \<^verbatim>\<open>stopGenerating\<close> of
  \<^verbatim>\<open>src/client/components/Chat/ChatBox.tsx\<close>. Text is modelled as the list of its
  UTF-8 bytes (\<^typ>\<open>string\<close>): the response body arrives as bytes and
  \<^verbatim>\<open>TextDecoder.decode(value, {stream: true})\<close> hands the same text on, whatever
  the chunk boundaries are, so a chunk here is the text of one read. The operations the
  component applies to text (\<^verbatim>\<open>split('\n')\<close>, \<^verbatim>\<open>startsWith('data: ')\<close>,
  \<^verbatim>\<open>slice(6)\<close>, \<^verbatim>\<open>+=\<close>) only look at ASCII bytes, which never occur
  inside a multi-byte character.
\<close>

subsection \<open>Text operations\<close>

definition newline :: char where
  "newline = CHR 0x0A"

text \<open>\<^verbatim>\<open>s.split(sep)\<close> for a one-character separator: never the empty array.\<close>

fun split :: "char \<Rightarrow> string \<Rightarrow> string list" where
  "split sep [] = [[]]"
| "split sep (c # cs) =
     (if c = sep then [] # split sep cs
      else (case split sep cs of [] \<Rightarrow> [[c]] | l # ls \<Rightarrow> (c # l) # ls))"

text \<open>\<^verbatim>\<open>lines.pop() || ''\<close>: the last element, or the empty text when there is none.\<close>

definition pop_or_empty :: "string list \<Rightarrow> string" where
  "pop_or_empty lines = (if lines = [] then [] else last lines)"

text \<open>\<^verbatim>\<open>line.startsWith('data: ')\<close> and \<^verbatim>\<open>line.slice(6)\<close>.\<close>

definition startsWith :: "string \<Rightarrow> string \<Rightarrow> bool" where
  "startsWith s p = prefix p s"

definition slice :: "nat \<Rightarrow> string \<Rightarrow> string" where
  "slice n s = drop n s"


text \<open>
  \<^verbatim>\<open>s.trim()\<close> removes the white space and line terminators of ECMAScript from both
  ends. \<open>white_space\<close> lists their UTF-8 encodings: U+0009 to U+000D, U+0020, U+00A0,
  U+1680, U+2000 to U+200A, U+2028, U+2029, U+202F, U+205F, U+3000 and U+FEFF.
\<close>

definition white_space :: "string list" where
  "white_space =
     [[CHR 0x09], [CHR 0x0A], [CHR 0x0B], [CHR 0x0C], [CHR 0x0D], [CHR 0x20],
      [CHR 0xC2, CHR 0xA0], [CHR 0xE1, CHR 0x9A, CHR 0x80],
      [CHR 0xE2, CHR 0x80, CHR 0x80], [CHR 0xE2, CHR 0x80, CHR 0x81],
      [CHR 0xE2, CHR 0x80, CHR 0x82], [CHR 0xE2, CHR 0x80, CHR 0x83],
      [CHR 0xE2, CHR 0x80, CHR 0x84], [CHR 0xE2, CHR 0x80, CHR 0x85],
      [CHR 0xE2, CHR 0x80, CHR 0x86], [CHR 0xE2, CHR 0x80, CHR 0x87],
      [CHR 0xE2, CHR 0x80, CHR 0x88], [CHR 0xE2, CHR 0x80, CHR 0x89],
      [CHR 0xE2, CHR 0x80, CHR 0x8A], [CHR 0xE2, CHR 0x80, CHR 0xA8],
      [CHR 0xE2, CHR 0x80, CHR 0xA9], [CHR 0xE2, CHR 0x80, CHR 0xAF],
      [CHR 0xE2, CHR 0x81, CHR 0x9F], [CHR 0xE3, CHR 0x80, CHR 0x80],
      [CHR 0xEF, CHR 0xBB, CHR 0xBF]]"

function strip :: "string list \<Rightarrow> string \<Rightarrow> string" where
  "strip ws s =
     (case find (\<lambda>w. w \<noteq> [] \<and> prefix w s) ws of
        None \<Rightarrow> s
      | Some w \<Rightarrow> strip ws (drop (length w) s))"
  by pat_completeness auto
termination
proof (relation "measure (\<lambda>(ws, s). length s)")
  show "wf (measure (\<lambda>(ws, s). length s))"
    by simp
next
  fix ws :: "string list" and s w :: string
  assume "find (\<lambda>w. w \<noteq> [] \<and> prefix w s) ws = Some w"
  then have "w \<noteq> []" and "prefix w s"
    by (auto simp: find_Some_iff)
  then have "s \<noteq> []" and "0 < length w"
    by auto
  then show "((ws, drop (length w) s), (ws, s)) \<in> measure (\<lambda>(ws, s). length s)"
    by simp
qed

definition trim :: "string \<Rightarrow> string" where
  "trim s = rev (strip (map rev white_space) (rev (strip white_space s)))"

subsection \<open>Values of \<^verbatim>\<open>JSON.parse\<close>\<close>

text \<open>
  What \<^verbatim>\<open>JSON.parse\<close> returns. A number carries the text that ECMAScript's
  \<^verbatim>\<open>String(n)\<close> gives for it, which is all the component can observe of a number
  (it is appended to text, or tested for truth). An object keeps its members in source
  order; a later member of the same name overrides an earlier one.
\<close>

datatype json =
    JNull
  | JBool bool
  | JNum string
  | JStr string
  | JArr "json list"
  | JObj "(string \<times> json) list"

text \<open>
  \<^verbatim>\<open>JSON.parse\<close> is a built-in of the platform, so the embedding takes it as a
  parameter: \<open>None\<close> is the \<^verbatim>\<open>SyntaxError\<close> it throws.
\<close>

type_synonym parser = "string \<Rightarrow> json option"

text \<open>
  A property read \<^verbatim>\<open>parsed.k\<close> on an object, for the names the component reads
  (\<^verbatim>\<open>type\<close>, \<^verbatim>\<open>data\<close>, \<^verbatim>\<open>error\<close>): \<open>None\<close> is \<^verbatim>\<open>undefined\<close>.
\<close>

definition member :: "(string \<times> json) list \<Rightarrow> string \<Rightarrow> json option" where
  "member kvs k = map_of (rev kvs) k"

definition intercalate :: "string \<Rightarrow> string list \<Rightarrow> string" where
  "intercalate sep xs = (case xs of [] \<Rightarrow> [] | y # ys \<Rightarrow> y @ concat (map (\<lambda>z. sep @ z) ys))"

text \<open>
  The conversion to text that \<^verbatim>\<open>+=\<close> and a template literal apply to a value:
  an array is its elements joined by commas, with \<^verbatim>\<open>null\<close> elements empty.
\<close>

fun ToString :: "json \<Rightarrow> string" where
  "ToString JNull = ''null''"
| "ToString (JBool b) = (if b then ''true'' else ''false'')"
| "ToString (JNum t) = t"
| "ToString (JStr s) = s"
| "ToString (JArr xs) =
     intercalate '','' (map (\<lambda>x. if x = JNull then [] else ToString x) xs)"
| "ToString (JObj kvs) = ''[object Object]''"

definition ToString_opt :: "json option \<Rightarrow> string" where
  "ToString_opt v = (case v of None \<Rightarrow> ''undefined'' | Some x \<Rightarrow> ToString x)"

text \<open>Truthiness, as \<^verbatim>\<open>||\<close> tests it.\<close>

fun ToBoolean :: "json option \<Rightarrow> bool" where
  "ToBoolean None = False"
| "ToBoolean (Some JNull) = False"
| "ToBoolean (Some (JBool b)) = b"
| "ToBoolean (Some (JNum t)) = (t \<noteq> ''0'')"
| "ToBoolean (Some (JStr s)) = (s \<noteq> [])"
| "ToBoolean (Some (JArr xs)) = True"
| "ToBoolean (Some (JObj kvs)) = True"


subsection \<open>The component's data\<close>

text \<open>\<^verbatim>\<open>interface ChatMessage\<close> of ChatBox.tsx; \<^verbatim>\<open>Date.now()\<close> is a natural number.\<close>

datatype role = User | Assistant

record ChatMessage =
  role :: role
  content :: string
  timestamp :: nat

text \<open>A thrown or rejected value, of which the handler reads \<^verbatim>\<open>name\<close> and \<^verbatim>\<open>message\<close>.\<close>

record JsError =
  error_name :: string
  error_message :: string

definition new_Error :: "string \<Rightarrow> JsError" where
  "new_Error msg = \<lparr>error_name = ''Error'', error_message = msg\<rparr>"

datatype log = Log string | ErrorLog string JsError

text \<open>
  The body of the POST to \<^verbatim>\<open>/api/chat/stream\<close> with its key header, and the
  \<^verbatim>\<open>signal\<close> option of line 62 (the controller it belongs to). The opaque
  \<^verbatim>\<open>currentData\<close> prop is copied into the body and is left out here.
\<close>

record request =
  api_key :: string
  body_message :: string
  conversationHistory :: "ChatMessage list"
  signal :: nat

text \<open>
  The state of the component (\<open>messages\<close>, \<open>inputValue\<close>, \<open>isLoading\<close> and the ref
  \<open>abortControllerRef\<close>) together with the traces of its effects: the texts passed to
  \<^verbatim>\<open>onSpeak\<close>, the console lines and the requests issued, each in order. Every queued
  state updater is applied once, in the order it was queued.

  An \<^verbatim>\<open>AbortController\<close> is an object with identity, shared by the ref and by the
  signal handed to \<^verbatim>\<open>fetch\<close>. \<open>controllers\<close> is the store of the controllers created
  so far, each with the \<^verbatim>\<open>aborted\<close> flag of its signal; a controller is its index in
  the store, and the ref holds such an index or \<^verbatim>\<open>null\<close>.
\<close>

record ChatBox =
  messages :: "ChatMessage list"
  inputValue :: string
  isLoading :: bool
  abortControllerRef :: "nat option"
  controllers :: "bool list"
  spoken :: "string list"
  console :: "log list"
  fetched :: "request list"

text \<open>
  What one call of \<^verbatim>\<open>sendMessage\<close> receives from outside: the three readings of the
  clock (lines 36, 78 and 143), the stored key, whether the \<^verbatim>\<open>onSpeak\<close> prop is
  supplied, and how \<^verbatim>\<open>fetch\<close> settles. A response carries \<^verbatim>\<open>ok\<close> and, when it
  has a body, what happens at the successive \<^verbatim>\<open>await reader.read()\<close>, in order of
  time: the network delivers a chunk, ends the stream or fails, or, while the read is
  still pending, the user clicks the stop button, which runs \<^verbatim>\<open>stopGenerating\<close>.
  A click while \<^verbatim>\<open>fetch\<close> itself is pending is not among the cases: \<^verbatim>\<open>fetch\<close> settles
  as the environment says.
\<close>

datatype read_result = Chunk string | Done | ReadRejects JsError | StopClicked

datatype fetch_result = FetchRejects JsError | Response bool "read_result list option"

record env =
  now_user :: nat
  now_assistant :: nat
  now_error :: nat
  apiKey :: "string option"
  onSpeak :: bool
  fetch :: fetch_result

text \<open>
  The values \<^verbatim>\<open>sendMessage\<close> closes over and reads after its first \<^verbatim>\<open>await\<close>:
  \<open>messages\<close> as it was in the render that created the function, and the prop. The
  messages appended by the call are new objects, which the closed-over array does not
  hold, so the updaters below never change what is read from the closure.
\<close>

record closure =
  c_messages :: "ChatMessage list"
  c_onSpeak :: bool

subsection \<open>Frames\<close>

text \<open>
  A frame is what one line of the stream makes the loop do (lines 95 to 128): append
  the text of \<^verbatim>\<open>parsed.data\<close>, finish, or show the text of
  \<^verbatim>\<open>parsed.error || '...'\<close>.
\<close>

datatype frame = Content string | End | Error string

definition default_error :: string where
  "default_error =
     [CHR 0xE5, CHR 0xA4, CHR 0x84, CHR 0xE7, CHR 0x90, CHR 0x86,
      CHR 0xE5, CHR 0xA4, CHR 0xB1, CHR 0xE8, CHR 0xB4, CHR 0xA5]"

definition warning :: string where
  "warning = [CHR 0xE2, CHR 0x9A, CHR 0xA0, CHR 0xEF, CHR 0xB8, CHR 0x8F, CHR 0x20]"

text \<open>
  Lines 95 to 100, 110 and 118. A \<^verbatim>\<open>SyntaxError\<close> of \<^verbatim>\<open>JSON.parse\<close> and the
  \<^verbatim>\<open>TypeError\<close> of reading \<^verbatim>\<open>null.type\<close> are both caught and ignored (line 129);
  on a number, a string, a boolean or an array \<^verbatim>\<open>parsed.type\<close> is \<^verbatim>\<open>undefined\<close>.
\<close>

definition decode_line :: "parser \<Rightarrow> string \<Rightarrow> frame option" where
  "decode_line JSON_parse line =
     (if startsWith line ''data: '' then
        (case JSON_parse (slice 6 line) of
           None \<Rightarrow> None
         | Some parsed \<Rightarrow>
             (case parsed of
                JObj kvs \<Rightarrow>
                  if member kvs ''type'' = Some (JStr ''content'') then
                    Some (Content (ToString_opt (member kvs ''data'')))
                  else if member kvs ''type'' = Some (JStr ''end'') then Some End
                  else if member kvs ''type'' = Some (JStr ''error'') then
                    Some (Error (if ToBoolean (member kvs ''error'')
                                 then ToString_opt (member kvs ''error'')
                                 else default_error))
                  else None
              | _ \<Rightarrow> None))
      else None)"

text \<open>The updater of lines 102 to 109.\<close>

definition append_content :: "string \<Rightarrow> ChatMessage list \<Rightarrow> ChatMessage list" where
  "append_content d prev =
     (let newMessages = prev in
      if newMessages \<noteq> [] \<and> role (last newMessages) = Assistant then
        newMessages[length newMessages - 1 :=
          (last newMessages)\<lparr>content := content (last newMessages) @ d\<rparr>]
      else newMessages)"

text \<open>The updater of lines 120 to 127.\<close>

definition show_error :: "string \<Rightarrow> ChatMessage list \<Rightarrow> ChatMessage list" where
  "show_error t prev =
     (let newMessages = prev in
      if newMessages \<noteq> [] \<and> role (last newMessages) = Assistant then
        newMessages[length newMessages - 1 := (last newMessages)\<lparr>content := warning @ t\<rparr>]
      else newMessages)"

text \<open>
  \<^verbatim>\<open>messages[messages.length - 1]?.content || ''\<close> of line 114, on the closed-over
  \<open>messages\<close>.
\<close>

definition finalContent :: "closure \<Rightarrow> string" where
  "finalContent cl = (if c_messages cl = [] then [] else content (last (c_messages cl)))"

fun apply_frame :: "closure \<Rightarrow> frame \<Rightarrow> ChatBox \<Rightarrow> ChatBox" where
  "apply_frame cl (Content d) st = st\<lparr>messages := append_content d (messages st)\<rparr>"
| "apply_frame cl End st =
     (let st1 = st\<lparr>isLoading := False\<rparr> in
      if finalContent cl \<noteq> [] \<and> c_onSpeak cl
      then st1\<lparr>spoken := spoken st1 @ [finalContent cl]\<rparr>
      else st1)"
| "apply_frame cl (Error t) st =
     st\<lparr>isLoading := False, messages := show_error t (messages st)\<rparr>"

text \<open>The body of the \<^verbatim>\<open>for\<close> loop, lines 94 to 133.\<close>

definition handle_line :: "parser \<Rightarrow> closure \<Rightarrow> ChatBox \<Rightarrow> string \<Rightarrow> ChatBox" where
  "handle_line JSON_parse cl st line =
     (case decode_line JSON_parse line of None \<Rightarrow> st | Some f \<Rightarrow> apply_frame cl f st)"

subsection \<open>Cancellation\<close>

text \<open>
  \<^verbatim>\<open>stopGenerating\<close>, lines 152 to 155:
  \<^verbatim>\<open>abortControllerRef.current?.abort()\<close> sets the flag of the controller the ref
  holds, if it holds one, and \<^verbatim>\<open>setIsLoading(false)\<close> clears the loading flag.
\<close>

definition abort :: "nat \<Rightarrow> bool list \<Rightarrow> bool list" where
  "abort c cs = cs[c := True]"

definition stopGenerating :: "ChatBox \<Rightarrow> ChatBox" where
  "stopGenerating st =
     (let st1 = (case abortControllerRef st of
                   None \<Rightarrow> st
                 | Some c \<Rightarrow> st\<lparr>controllers := abort c (controllers st)\<rparr>)
      in st1\<lparr>isLoading := False\<rparr>)"

text \<open>
  What the platform does with the signal of line 62: a read on the body of a response
  whose signal is aborted rejects with a \<^verbatim>\<open>DOMException\<close> named \<^verbatim>\<open>AbortError\<close>, and
  what the stream still held is dropped. The handler reads only the name of the error;
  the wording of its message differs between browsers.
\<close>

definition aborted :: "ChatBox \<Rightarrow> nat \<Rightarrow> bool" where
  "aborted st c = (c < length (controllers st) \<and> controllers st ! c)"

definition AbortError :: JsError where
  "AbortError = \<lparr>error_name = ''AbortError'', error_message = ''The user aborted a request.''\<rparr>"

subsection \<open>The read loop and \<^verbatim>\<open>sendMessage\<close>\<close>

text \<open>
  How the \<^verbatim>\<open>while (true)\<close> loop of lines 86 to 134 is left: by \<^verbatim>\<open>break\<close>, by the
  rejection of a read, or not yet (the call is suspended at \<^verbatim>\<open>await reader.read()\<close>
  with no further result known).

  The loop reads the body of the response to the \<^verbatim>\<open>fetch\<close> that was given the signal
  \<open>sig\<close>. At every \<^verbatim>\<open>await\<close> the read rejects when that signal is aborted; otherwise
  the next thing happens. A click on the stop button runs the handler on the state
  while the call is suspended, and the same read is then awaited again.
\<close>

datatype exit = Break | Throw JsError | Awaiting

fun read_loop ::
  "parser \<Rightarrow> closure \<Rightarrow> nat \<Rightarrow> string \<Rightarrow> read_result list \<Rightarrow> ChatBox \<Rightarrow> exit \<times> ChatBox"
  where
  "read_loop JSON_parse cl sig buffer [] st =
     (if aborted st sig then (Throw AbortError, st) else (Awaiting, st))"
| "read_loop JSON_parse cl sig buffer (Done # rs) st =
     (if aborted st sig then (Throw AbortError, st) else (Break, st))"
| "read_loop JSON_parse cl sig buffer (ReadRejects err # rs) st =
     (if aborted st sig then (Throw AbortError, st) else (Throw err, st))"
| "read_loop JSON_parse cl sig buffer (StopClicked # rs) st =
     (if aborted st sig then (Throw AbortError, st)
      else read_loop JSON_parse cl sig buffer rs (stopGenerating st))"
| "read_loop JSON_parse cl sig buffer (Chunk v # rs) st =
     (if aborted st sig then (Throw AbortError, st)
      else
        let buffer1 = buffer @ v;
            lines = split newline buffer1;
            buffer2 = pop_or_empty lines;
            lines1 = butlast lines
        in read_loop JSON_parse cl sig buffer2 rs (foldl (handle_line JSON_parse cl) st lines1))"

definition key_missing :: string where
  "key_missing =
     [CHR 0xE6, CHR 0x9C, CHR 0xAA, CHR 0xE9, CHR 0x85, CHR 0x8D, CHR 0xE7, CHR 0xBD,
      CHR 0xAE, CHR 0xE9, CHR 0xAD, CHR 0x94, CHR 0xE6, CHR 0x90, CHR 0xAD, CHR 0x41,
      CHR 0x50, CHR 0x49, CHR 0xE5, CHR 0xAF, CHR 0x86, CHR 0xE9, CHR 0x92, CHR 0xA5]"

definition request_failed :: string where
  "request_failed =
     [CHR 0xE8, CHR 0xAF, CHR 0xB7, CHR 0xE6, CHR 0xB1, CHR 0x82,
      CHR 0xE5, CHR 0xA4, CHR 0xB1, CHR 0xE8, CHR 0xB4, CHR 0xA5]"

definition no_reader :: string where
  "no_reader =
     [CHR 0xE6, CHR 0x97, CHR 0xA0, CHR 0xE6, CHR 0xB3, CHR 0x95, CHR 0xE8, CHR 0xAF,
      CHR 0xBB, CHR 0xE5, CHR 0x8F, CHR 0x96, CHR 0xE5, CHR 0x93, CHR 0x8D, CHR 0xE5,
      CHR 0xBA, CHR 0x94, CHR 0xE6, CHR 0xB5, CHR 0x81]"

definition retry_later :: string where
  "retry_later =
     [CHR 0xE8, CHR 0xAF, CHR 0xB7, CHR 0xE6, CHR 0xB1, CHR 0x82, CHR 0xE5, CHR 0xA4,
      CHR 0xB1, CHR 0xE8, CHR 0xB4, CHR 0xA5, CHR 0xEF, CHR 0xBC, CHR 0x8C, CHR 0xE8,
      CHR 0xAF, CHR 0xB7, CHR 0xE7, CHR 0xA8, CHR 0x8D, CHR 0xE5, CHR 0x90, CHR 0x8E,
      CHR 0xE9, CHR 0x87, CHR 0x8D, CHR 0xE8, CHR 0xAF, CHR 0x95]"

text \<open>
  The \<^verbatim>\<open>try\<close> block, lines 45 to 134. \<open>sig\<close> is the controller whose signal line 62
  reads from the ref: the one line 43 has just stored there, nothing running in between.
\<close>

definition try_block ::
  "parser \<Rightarrow> env \<Rightarrow> closure \<Rightarrow> nat \<Rightarrow> string \<Rightarrow> ChatBox \<Rightarrow> exit \<times> ChatBox" where
  "try_block JSON_parse e cl sig message st =
     (case apiKey e of
        None \<Rightarrow> (Throw (new_Error key_missing), st)
      | Some k \<Rightarrow>
          if k = [] then (Throw (new_Error key_missing), st)
          else
            let st1 = st\<lparr>fetched := fetched st @
                  [\<lparr>api_key = k, body_message = message,
                    conversationHistory = c_messages cl, signal = sig\<rparr>]\<rparr>
            in (case fetch e of
                  FetchRejects err \<Rightarrow> (Throw err, st1)
                | Response ok body \<Rightarrow>
                    if \<not> ok then (Throw (new_Error request_failed), st1)
                    else (case body of
                            None \<Rightarrow> (Throw (new_Error no_reader), st1)
                          | Some reads \<Rightarrow>
                              let assistantMessage =
                                    \<lparr>role = Assistant, content = [],
                                     timestamp = now_assistant e\<rparr>;
                                  st2 = st1\<lparr>messages := messages st1 @ [assistantMessage]\<rparr>
                              in read_loop JSON_parse cl sig [] reads st2)))"

text \<open>The \<^verbatim>\<open>catch\<close> block, lines 135 to 148.\<close>

definition catch_block :: "env \<Rightarrow> JsError \<Rightarrow> ChatBox \<Rightarrow> ChatBox" where
  "catch_block e error st =
     (let st1 =
        (if error_name error = ''AbortError'' then
           st\<lparr>console := console st @ [Log ''Request aborted'']\<rparr>
         else
           let errorMessage =
                 \<lparr>role = Assistant,
                  content = warning @
                    (if error_message error \<noteq> [] then error_message error else retry_later),
                  timestamp = now_error e\<rparr>
           in st\<lparr>console := console st @ [ErrorLog ''[ChatBox] Error:'' error],
                messages := messages st @ [errorMessage]\<rparr>)
      in st1\<lparr>isLoading := False\<rparr>)"

text \<open>
  \<^verbatim>\<open>sendMessage\<close>, lines 28 to 149. Line 43 creates a controller, not aborted, and
  stores it in the ref.
\<close>

definition sendMessage :: "parser \<Rightarrow> env \<Rightarrow> ChatBox \<Rightarrow> ChatBox" where
  "sendMessage JSON_parse e st =
     (let message = trim (inputValue st) in
      if message = [] \<or> isLoading st then st
      else
        let userMessage = \<lparr>role = User, content = message, timestamp = now_user e\<rparr>;
            controller = length (controllers st);
            st1 = st\<lparr>messages := messages st @ [userMessage], inputValue := [],
                     isLoading := True,
                     controllers := controllers st @ [False],
                     abortControllerRef := Some controller\<rparr>;
            cl = \<lparr>c_messages = messages st, c_onSpeak = onSpeak e\<rparr>
        in (case try_block JSON_parse e cl controller message st1 of
              (Throw error, st2) \<Rightarrow> catch_block e error st2
            | (_, st2) \<Rightarrow> st2))"



subsection \<open>A parser for the concrete runs\<close>

text \<open>
  The theorems below hold for every parser. The concrete runs need one, and use this
  model of \<^verbatim>\<open>JSON.parse\<close> on UTF-8 text, after the grammar of ECMA-404: white space
  is space, tab, line feed and carriage return; a \<^verbatim>\<open>\u\<close> escape becomes the UTF-8
  bytes of its code point (a surrogate pair those of the pair's code point, a lone
  surrogate the three bytes of its code unit). The text of a number is exact for a zero
  and for a plain integer of at most 15 digits; for other numerals it is the numeral as
  written, which is not always what \<^verbatim>\<open>String(n)\<close> prints.
\<close>

definition is_ws :: "char \<Rightarrow> bool" where
  "is_ws c = (c = CHR 0x20 \<or> c = CHR 0x09 \<or> c = CHR 0x0A \<or> c = CHR 0x0D)"

definition skip_ws :: "string \<Rightarrow> string" where
  "skip_ws s = dropWhile is_ws s"

definition is_digit :: "char \<Rightarrow> bool" where
  "is_digit c = (48 \<le> (of_char c :: nat) \<and> (of_char c :: nat) \<le> 57)"

definition hex_digit :: "char \<Rightarrow> nat option" where
  "hex_digit c =
     (let n = (of_char c :: nat) in
      if 48 \<le> n \<and> n \<le> 57 then Some (n - 48)
      else if 65 \<le> n \<and> n \<le> 70 then Some (n - 55)
      else if 97 \<le> n \<and> n \<le> 102 then Some (n - 87)
      else None)"

definition hex4 :: "string \<Rightarrow> nat option" where
  "hex4 s =
     (case map hex_digit (take 4 s) of
        [Some a, Some b, Some c, Some d] \<Rightarrow> Some (((a * 16 + b) * 16 + c) * 16 + d)
      | _ \<Rightarrow> None)"

definition utf8 :: "nat \<Rightarrow> string" where
  "utf8 n =
     (if n < 0x80 then [char_of n]
      else if n < 0x800 then [char_of (0xC0 + n div 64), char_of (0x80 + n mod 64)]
      else if n < 0x10000 then
        [char_of (0xE0 + n div 4096), char_of (0x80 + n div 64 mod 64),
         char_of (0x80 + n mod 64)]
      else
        [char_of (0xF0 + n div 262144), char_of (0x80 + n div 4096 mod 64),
         char_of (0x80 + n div 64 mod 64), char_of (0x80 + n mod 64)])"

definition escape :: "char \<Rightarrow> char option" where
  "escape e =
     (if e = CHR 0x22 \<or> e = CHR 0x5C \<or> e = CHR ''/'' then Some e
      else if e = CHR ''b'' then Some (CHR 0x08)
      else if e = CHR ''f'' then Some (CHR 0x0C)
      else if e = CHR ''n'' then Some (CHR 0x0A)
      else if e = CHR ''r'' then Some (CHR 0x0D)
      else if e = CHR ''t'' then Some (CHR 0x09)
      else None)"

definition low_surrogate :: "string \<Rightarrow> nat option" where
  "low_surrogate s =
     (if prefix [CHR 0x5C, CHR ''u''] s then
        (case hex4 (drop 2 s) of
           None \<Rightarrow> None
         | Some l \<Rightarrow> if 0xDC00 \<le> l \<and> l < 0xE000 then Some l else None)
      else None)"

fun parse_chars :: "string \<Rightarrow> (string \<times> string) option" where
  "parse_chars [] = None"
| "parse_chars (c # cs) =
     (if c = CHR 0x22 then Some ([], cs)
      else if c = CHR 0x5C then
        (case cs of
           [] \<Rightarrow> None
         | e # es \<Rightarrow>
             if e = CHR ''u'' then
               (case hex4 es of
                  None \<Rightarrow> None
                | Some u \<Rightarrow>
                    (case (if 0xD800 \<le> u \<and> u < 0xDC00 then low_surrogate (drop 4 es) else None) of
                       Some l \<Rightarrow>
                         map_option (apfst ((@) (utf8 (0x10000 + (u - 0xD800) * 1024 + (l - 0xDC00)))))
                           (parse_chars (drop 10 es))
                     | None \<Rightarrow> map_option (apfst ((@) (utf8 u))) (parse_chars (drop 4 es))))
             else
               (case escape e of
                  None \<Rightarrow> None
                | Some x \<Rightarrow> map_option (apfst ((#) x)) (parse_chars es)))
      else if (of_char c :: nat) < 32 then None
      else map_option (apfst ((#) c)) (parse_chars cs))"

definition parse_number :: "string \<Rightarrow> (string \<times> string) option" where
  "parse_number s =
     (let sign = (if prefix ''-'' s then ''-'' else []);
          s1 = drop (length sign) s;
          whole = takeWhile is_digit s1;
          s2 = dropWhile is_digit s1;
          frac = (if prefix ''.'' s2 then CHR ''.'' # takeWhile is_digit (tl s2) else []);
          s3 = drop (length frac) s2;
          mark = (if prefix ''e'' s3 \<or> prefix ''E'' s3 then take 1 s3 else []);
          s4 = drop (length mark) s3;
          esign = (if mark \<noteq> [] \<and> (prefix ''+'' s4 \<or> prefix ''-'' s4) then take 1 s4 else []);
          s5 = drop (length esign) s4;
          edigits = (if mark \<noteq> [] then takeWhile is_digit s5 else []);
          s6 = drop (length edigits) s5
      in if whole = [] \<or> (1 < length whole \<and> hd whole = CHR ''0'') then None
         else if frac = ''.'' then None
         else if mark \<noteq> [] \<and> edigits = [] then None
         else if list_all (\<lambda>c. c = CHR ''0'') (whole @ drop 1 frac) then Some (''0'', s6)
         else Some (sign @ whole @ frac @ mark @ esign @ edigits, s6))"

fun parse_value :: "nat \<Rightarrow> string \<Rightarrow> (json \<times> string) option"
and parse_elements :: "nat \<Rightarrow> string \<Rightarrow> (json list \<times> string) option"
and parse_members :: "nat \<Rightarrow> string \<Rightarrow> ((string \<times> json) list \<times> string) option" where
  "parse_value 0 s = None"
| "parse_value (Suc n) s =
     (let t = skip_ws s in
      if prefix ''{'' t then
        (if prefix ''}'' (skip_ws (tl t)) then Some (JObj [], tl (skip_ws (tl t)))
         else map_option (apfst JObj) (parse_members n (tl t)))
      else if prefix ''['' t then
        (if prefix '']'' (skip_ws (tl t)) then Some (JArr [], tl (skip_ws (tl t)))
         else map_option (apfst JArr) (parse_elements n (tl t)))
      else if prefix [CHR 0x22] t then map_option (apfst JStr) (parse_chars (tl t))
      else if prefix ''true'' t then Some (JBool True, drop 4 t)
      else if prefix ''false'' t then Some (JBool False, drop 5 t)
      else if prefix ''null'' t then Some (JNull, drop 4 t)
      else map_option (apfst JNum) (parse_number t))"
| "parse_elements 0 s = None"
| "parse_elements (Suc n) s =
     (case parse_value n s of
        None \<Rightarrow> None
      | Some (v, r) \<Rightarrow>
          (let t = skip_ws r in
           if prefix '','' t then map_option (apfst ((#) v)) (parse_elements n (tl t))
           else if prefix '']'' t then Some ([v], tl t)
           else None))"
| "parse_members 0 s = None"
| "parse_members (Suc n) s =
     (let t = skip_ws s in
      if prefix [CHR 0x22] t then
        (case parse_chars (tl t) of
           None \<Rightarrow> None
         | Some (k, r) \<Rightarrow>
             (let t1 = skip_ws r in
              if prefix '':'' t1 then
                (case parse_value n (tl t1) of
                   None \<Rightarrow> None
                 | Some (v, r1) \<Rightarrow>
                     (let t2 = skip_ws r1 in
                      if prefix '','' t2 then
                        map_option (apfst ((#) (k, v))) (parse_members n (tl t2))
                      else if prefix ''}'' t2 then Some ([(k, v)], tl t2)
                      else None))
              else None))
      else None)"

text \<open>
  The fuel bounds the nesting of the calls. A value needs no more fuel than the number
  of characters it spans (a level of nesting and a further element each cost one unit
  and span a character more), so the fuel given here is not used up.
\<close>

definition ecma_parse :: parser where
  "ecma_parse s =
     (case parse_value (Suc (length s)) s of
        None \<Rightarrow> None
      | Some (v, r) \<Rightarrow> if skip_ws r = [] then Some v else None)"



subsection \<open>The loop as a decoder followed by an interpreter\<close>

text \<open>
  Lines 90 to 98 as a function of the buffer and the chunk: the frames of the lines the
  chunk completes, and the text retained for the next read.
\<close>

definition feed :: "parser \<Rightarrow> string \<Rightarrow> string \<Rightarrow> frame list \<times> string" where
  "feed JSON_parse buffer chunk =
     (let lines = split newline (buffer @ chunk)
      in (List.map_filter (decode_line JSON_parse) (butlast lines), pop_or_empty lines))"

fun feed_all :: "parser \<Rightarrow> string \<Rightarrow> string list \<Rightarrow> frame list \<times> string" where
  "feed_all JSON_parse buffer [] = ([], buffer)"
| "feed_all JSON_parse buffer (c # cs) =
     (case feed JSON_parse buffer c of
        (fs, buffer1) \<Rightarrow>
          (case feed_all JSON_parse buffer1 cs of (gs, buffer2) \<Rightarrow> (fs @ gs, buffer2)))"

definition apply_frames :: "closure \<Rightarrow> frame list \<Rightarrow> ChatBox \<Rightarrow> ChatBox" where
  "apply_frames cl fs st = foldl (\<lambda>s f. apply_frame cl f s) st fs"

fun payloads :: "frame list \<Rightarrow> string list" where
  "payloads [] = []"
| "payloads (Content d # fs) = d # payloads fs"
| "payloads (f # fs) = payloads fs"

fun is_Error :: "frame \<Rightarrow> bool" where
  "is_Error (Error t) = True"
| "is_Error f = False"

text \<open>
  The chunks the loop reads from a list of read results (those before the first result
  that is not a chunk), how a session then leaves it, whether it is a click on the stop
  button that ends it, and the frames it decodes on the way.
\<close>

fun chunks_read :: "read_result list \<Rightarrow> string list" where
  "chunks_read [] = []"
| "chunks_read (Chunk v # rs) = v # chunks_read rs"
| "chunks_read (r # rs) = []"

fun loop_exit :: "read_result list \<Rightarrow> exit" where
  "loop_exit [] = Awaiting"
| "loop_exit (Chunk v # rs) = loop_exit rs"
| "loop_exit (Done # rs) = Break"
| "loop_exit (ReadRejects err # rs) = Throw err"
| "loop_exit (StopClicked # rs) = Throw AbortError"

fun stopped :: "read_result list \<Rightarrow> bool" where
  "stopped [] = False"
| "stopped (Chunk v # rs) = stopped rs"
| "stopped (StopClicked # rs) = True"
| "stopped (r # rs) = False"

fun rejected :: "exit \<Rightarrow> bool" where
  "rejected (Throw err) = True"
| "rejected x = False"

definition frames_read :: "parser \<Rightarrow> read_result list \<Rightarrow> frame list" where
  "frames_read JSON_parse reads = fst (feed_all JSON_parse [] (chunks_read reads))"

text \<open>
  The state in which the read loop is entered (lines 33 to 80 on the path of an
  accepted request): the user message and the empty assistant message appended, the
  input cleared, the flag set, the controller created and stored, the request recorded.
\<close>

definition streaming :: "env \<Rightarrow> string \<Rightarrow> ChatBox \<Rightarrow> ChatBox" where
  "streaming e k st =
     st\<lparr>inputValue := [],
        isLoading := True,
        controllers := controllers st @ [False],
        abortControllerRef := Some (length (controllers st)),
        fetched := fetched st @
           [\<lparr>api_key = k, body_message = trim (inputValue st),
             conversationHistory = messages st, signal = length (controllers st)\<rparr>],
        messages := messages st @
           [\<lparr>role = User, content = trim (inputValue st), timestamp = now_user e\<rparr>,
            \<lparr>role = Assistant, content = [], timestamp = now_assistant e\<rparr>]\<rparr>"

subsection \<open>Concrete streams\<close>

text \<open>
  The event lines of the wire contract, each with its terminating newline, a component
  that is idle with a question typed in, and a server that accepts the request and
  answers with the given read results.
\<close>

definition content_line :: "string \<Rightarrow> string" where
  "content_line d = ''data: {\"type\":\"content\",\"data\":\"'' @ d @ ''\"}'' @ [newline]"

definition end_line :: string where
  "end_line = ''data: {\"type\":\"end\"}'' @ [newline]"


definition idle :: ChatBox where
  "idle = \<lparr>messages = [], inputValue = ''revenue?'', isLoading = False,
            abortControllerRef = None, controllers = [], spoken = [], console = [],
            fetched = []\<rparr>"

definition server :: "read_result list \<Rightarrow> env" where
  "server reads = \<lparr>now_user = 1, now_assistant = 2, now_error = 3, apiKey = Some ''key'',
                   onSpeak = True, fetch = Response True (Some reads)\<rparr>"

definition second_turn :: ChatBox where
  "second_turn =
     \<lparr>messages = [\<lparr>role = User, content = ''hi'', timestamp = 0\<rparr>,
                  \<lparr>role = Assistant, content = ''Hello'', timestamp = 0\<rparr>],
      inputValue = ''revenue?'', isLoading = False, abortControllerRef = None,
      controllers = [], spoken = [], console = [], fetched = []\<rparr>"

section \<open>Properties\<close>

subsection \<open>Splitting into lines\<close>

lemma split_not_Nil: "split sep s \<noteq> []"
  by (induction s) (auto split: list.splits)

lemma split_no_sep: "sep \<notin> set s \<Longrightarrow> split sep s = [s]"
  by (induction s) auto

lemma split_append:
  "split sep (a @ b) = butlast (split sep a) @ split sep (last (split sep a) @ b)"
proof (induction a)
  case Nil
  show ?case by simp
next
  case (Cons c a)
  show ?case
  proof (cases "c = sep")
    case True
    with Cons show ?thesis by (simp add: split_not_Nil)
  next
    case False
    obtain l ls where s: "split sep a = l # ls"
      using split_not_Nil [of sep a] by (cases "split sep a") auto
    show ?thesis
    proof (cases ls)
      case Nil
      with Cons s False show ?thesis by simp
    next
      case (Cons m ms)
      with Cons.IH s False show ?thesis by simp
    qed
  qed
qed

lemma split_sep:
  "split sep (a @ sep # r) = split sep a @ split sep r"
proof (induction a)
  case Nil
  show ?case by simp
next
  case (Cons c a)
  show ?case
  proof (cases "split sep a")
    case Nil
    then show ?thesis using split_not_Nil [of sep a] by simp
  next
    case (Cons l ls)
    with Cons.IH show ?thesis by simp
  qed
qed

lemma split_ends_with_sep:
  "a = [] \<or> last a = sep \<Longrightarrow> split sep (a @ b) = butlast (split sep a) @ split sep b"
proof (cases a rule: rev_cases)
  case Nil
  then show ?thesis by simp
next
  case (snoc a' c)
  assume "a = [] \<or> last a = sep"
  with snoc have c: "c = sep" by simp
  have "split sep (a' @ sep # b) = split sep a' @ split sep b"
    by (rule split_sep)
  moreover have "split sep (a' @ sep # []) = split sep a' @ [[]]"
    using split_sep [of sep a' "[]"] by simp
  ultimately show ?thesis
    using snoc c by simp
qed

lemma last_split_no_sep: "sep \<notin> set (last (split sep s))"
proof (induction s)
  case Nil
  show ?case by simp
next
  case (Cons c s)
  then show ?case
    using split_not_Nil [of sep s]
    by (cases "split sep s") (auto split: list.splits)
qed

subsection \<open>The decoder\<close>

lemma map_filter_append:
  "List.map_filter f (xs @ ys) = List.map_filter f xs @ List.map_filter f ys"
  by (simp add: List.map_filter_def)

lemma feed_append:
  "feed P b (c @ d) =
     (fst (feed P b c) @ fst (feed P (snd (feed P b c)) d), snd (feed P (snd (feed P b c)) d))"
proof -
  let ?s = "split newline (b @ c)"
  have e: "split newline (b @ c @ d) = butlast ?s @ split newline (last ?s @ d)"
    using split_append [of newline "b @ c" d] by simp
  have n: "split newline (last ?s @ d) \<noteq> []"
    by (rule split_not_Nil)
  show ?thesis
    using n
    by (simp add: feed_def Let_def e pop_or_empty_def split_not_Nil butlast_append
        map_filter_append)
qed

lemma feed_empty: "newline \<notin> set b \<Longrightarrow> feed P b [] = ([], b)"
  by (simp add: feed_def split_no_sep pop_or_empty_def List.map_filter_def)

lemma feed_no_newline:
  "newline \<notin> set b \<Longrightarrow> newline \<notin> set c \<Longrightarrow> feed P b c = ([], b @ c)"
  by (simp add: feed_def split_no_sep pop_or_empty_def List.map_filter_simps)

lemma snd_feed_no_newline: "newline \<notin> set (snd (feed P b c))"
  by (simp add: feed_def Let_def pop_or_empty_def split_not_Nil last_split_no_sep)

lemma snd_feed_all_no_newline:
  "newline \<notin> set b \<Longrightarrow> newline \<notin> set (snd (feed_all P b cs))"
proof (induction cs arbitrary: b)
  case Nil
  then show ?case by simp
next
  case (Cons c cs)
  have "newline \<notin> set (snd (feed_all P (snd (feed P b c)) cs))"
    by (rule Cons.IH) (rule snd_feed_no_newline)
  then show ?case
    by (simp add: case_prod_beta)
qed

lemma feed_all_concat:
  "newline \<notin> set b \<Longrightarrow> feed_all P b cs = feed P b (concat cs)"
proof (induction cs arbitrary: b)
  case Nil
  then show ?case by (simp add: feed_empty)
next
  case (Cons c cs)
  have "feed_all P (snd (feed P b c)) cs = feed P (snd (feed P b c)) (concat cs)"
    by (rule Cons.IH) (rule snd_feed_no_newline)
  then show ?case
    by (simp add: feed_append case_prod_beta)
qed

lemma decode_line_None:
  "\<not> startsWith bad ''data: '' \<or> P (slice 6 bad) = None \<Longrightarrow> decode_line P bad = None"
  by (auto simp: decode_line_def)

lemma feed_skips:
  assumes d: "decode_line P bad = None"
    and n: "newline \<notin> set bad"
    and b: "before = [] \<or> last before = newline"
  shows "feed P [] (before @ bad @ newline # rest) = feed P [] (before @ rest)"
proof -
  have l: "split newline (bad @ newline # rest) = bad # split newline rest"
    using n by (simp add: split_sep split_no_sep)
  have r: "split newline rest \<noteq> []"
    by (rule split_not_Nil)
  show ?thesis
    using r
    by (simp add: feed_def Let_def split_ends_with_sep [OF b] l pop_or_empty_def
        butlast_append map_filter_append List.map_filter_simps d)
qed

subsection \<open>The read loop\<close>

lemma foldl_handle_line:
  "foldl (handle_line P cl) st ls = apply_frames cl (List.map_filter (decode_line P) ls) st"
  by (induction ls arbitrary: st)
    (simp_all add: apply_frames_def List.map_filter_def handle_line_def split: option.splits)

lemma apply_frames_append:
  "apply_frames cl (fs @ gs) st = apply_frames cl gs (apply_frames cl fs st)"
  by (simp add: apply_frames_def)

lemma apply_frames_Nil: "apply_frames cl [] st = st"
  by (simp add: apply_frames_def)

lemma apply_frames_Cons:
  "apply_frames cl (f # fs) st = apply_frames cl fs (apply_frame cl f st)"
  by (simp add: apply_frames_def)

lemma controllers_apply_frames [simp]:
  "controllers (apply_frames cl fs st) = controllers st"
proof (induction fs arbitrary: st)
  case Nil
  show ?case by (simp add: apply_frames_def)
next
  case (Cons f fs)
  have "controllers (apply_frame cl f st) = controllers st"
    by (cases f) (simp_all add: Let_def)
  then show ?case
    by (simp add: apply_frames_Cons Cons.IH del: apply_frame.simps)
qed

lemma abortControllerRef_apply_frames [simp]:
  "abortControllerRef (apply_frames cl fs st) = abortControllerRef st"
proof (induction fs arbitrary: st)
  case Nil
  show ?case by (simp add: apply_frames_def)
next
  case (Cons f fs)
  have "abortControllerRef (apply_frame cl f st) = abortControllerRef st"
    by (cases f) (simp_all add: Let_def)
  then show ?case
    by (simp add: apply_frames_Cons Cons.IH del: apply_frame.simps)
qed

lemma aborted_apply_frames [simp]: "aborted (apply_frames cl fs st) sig = aborted st sig"
  by (simp add: aborted_def)

lemma read_loop_aborted:
  "aborted st sig \<Longrightarrow> read_loop P cl sig b rs st = (Throw AbortError, st)"
proof (cases rs)
  case Nil
  assume "aborted st sig"
  with Nil show ?thesis by simp
next
  case (Cons r rs')
  assume "aborted st sig"
  with Cons show ?thesis by (cases r) simp_all
qed

lemma read_loop_Chunk:
  "read_loop P cl sig b (Chunk v # rs) st =
     (if aborted st sig then (Throw AbortError, st)
      else read_loop P cl sig (snd (feed P b v)) rs (apply_frames cl (fst (feed P b v)) st))"
  by (simp add: Let_def feed_def foldl_handle_line)

lemma read_loop_chunks:
  "\<not> aborted st sig \<Longrightarrow>
   read_loop P cl sig b (map Chunk cs @ rs) st =
     read_loop P cl sig (snd (feed_all P b cs)) rs
       (apply_frames cl (fst (feed_all P b cs)) st)"
proof (induction cs arbitrary: b st)
  case Nil
  show ?case by (simp add: apply_frames_def)
next
  case (Cons c cs)
  have "\<not> aborted (apply_frames cl (fst (feed P b c)) st) sig"
    using Cons.prems by simp
  then show ?case
    using Cons.prems
    by (simp add: read_loop_Chunk Cons.IH apply_frames_append case_prod_beta
        del: read_loop.simps)
qed

lemma chunks_read_map_Chunk [simp]: "chunks_read (map Chunk cs @ rs) = cs @ chunks_read rs"
  by (induction cs) simp_all

lemma loop_exit_map_Chunk [simp]: "loop_exit (map Chunk cs @ rs) = loop_exit rs"
  by (induction cs) simp_all

lemma stopped_map_Chunk [simp]: "stopped (map Chunk cs @ rs) = stopped rs"
  by (induction cs) simp_all

lemma chunks_read_only [simp]: "chunks_read (map Chunk cs) = cs"
  by (induction cs) simp_all

lemma loop_exit_only [simp]: "loop_exit (map Chunk cs) = Awaiting"
  by (induction cs) simp_all

lemma stopped_only [simp]: "\<not> stopped (map Chunk cs)"
  by (induction cs) simp_all

lemma aborted_stopGenerating:
  "abortControllerRef st = Some sig \<Longrightarrow> sig < length (controllers st) \<Longrightarrow>
   aborted (stopGenerating st) sig"
  by (simp add: stopGenerating_def aborted_def abort_def Let_def)

text \<open>
  The loop in closed form, for a state whose ref holds the controller of the signal,
  not aborted so far: that is the state in which \<^verbatim>\<open>sendMessage\<close> enters the loop.
\<close>

lemma read_loop_eq:
  assumes "abortControllerRef st = Some sig" and "sig < length (controllers st)"
    and "\<not> controllers st ! sig"
  shows "read_loop P cl sig b rs st =
     (loop_exit rs,
      (if stopped rs
       then stopGenerating (apply_frames cl (fst (feed_all P b (chunks_read rs))) st)
       else apply_frames cl (fst (feed_all P b (chunks_read rs))) st))"
  using assms
proof (induction rs arbitrary: b st)
  case Nil
  then show ?case by (simp add: apply_frames_def aborted_def)
next
  case (Cons r rs)
  from Cons.prems have n: "\<not> aborted st sig"
    by (simp add: aborted_def)
  show ?case
  proof (cases r)
    case (Chunk v)
    let ?s = "apply_frames cl (fst (feed P b v)) st"
    have "abortControllerRef ?s = Some sig" and "sig < length (controllers ?s)"
      and "\<not> controllers ?s ! sig"
      using Cons.prems by simp_all
    then have "read_loop P cl sig (snd (feed P b v)) rs ?s =
        (loop_exit rs,
         (if stopped rs
          then stopGenerating
            (apply_frames cl (fst (feed_all P (snd (feed P b v)) (chunks_read rs))) ?s)
          else apply_frames cl (fst (feed_all P (snd (feed P b v)) (chunks_read rs))) ?s))"
      by (rule Cons.IH)
    with Chunk n show ?thesis
      by (simp add: read_loop_Chunk apply_frames_append case_prod_beta
          del: read_loop.simps)
  next
    case Done
    with n show ?thesis by (simp add: apply_frames_def)
  next
    case (ReadRejects err)
    with n show ?thesis by (simp add: apply_frames_def)
  next
    case StopClicked
    have "aborted (stopGenerating st) sig"
      using Cons.prems(1,2) by (rule aborted_stopGenerating)
    then have "read_loop P cl sig b rs (stopGenerating st) = (Throw AbortError, stopGenerating st)"
      by (rule read_loop_aborted)
    with StopClicked n show ?thesis
      by (simp add: apply_frames_def)
  qed
qed


lemma read_loop_residue:
  assumes "newline \<notin> set residue"
  shows "read_loop P cl sig [] (map Chunk cs @ Chunk residue # Done # rs) s =
         read_loop P cl sig [] (map Chunk cs @ Done # rs) s"
proof (cases "aborted s sig")
  case True
  then show ?thesis by (simp add: read_loop_aborted)
next
  case False
  have n: "newline \<notin> set (snd (feed_all P [] cs))"
    by (rule snd_feed_all_no_newline) simp
  show ?thesis
    using False
    by (simp add: read_loop_chunks read_loop_Chunk feed_no_newline [OF n assms]
        apply_frames_Nil del: read_loop.simps(5))
qed

subsection \<open>Frames and the transcript\<close>

lemma append_content_snoc:
  "append_content d (ms @ [m]) =
     (if role m = Assistant then ms @ [m\<lparr>content := content m @ d\<rparr>] else ms @ [m])"
  by (simp add: append_content_def Let_def)

lemma show_error_snoc:
  "show_error t (ms @ [m]) =
     (if role m = Assistant then ms @ [m\<lparr>content := warning @ t\<rparr>] else ms @ [m])"
  by (simp add: show_error_def Let_def)

lemma append_content_Nil: "append_content [] ms = ms"
  by (cases ms rule: rev_cases) (simp_all add: append_content_snoc, simp add: append_content_def)

lemma append_content_twice:
  "append_content d2 (append_content d1 ms) = append_content (d1 @ d2) ms"
  by (cases ms rule: rev_cases) (simp_all add: append_content_snoc, simp add: append_content_def)

lemma messages_apply_frames:
  "\<forall>f \<in> set fs. \<not> is_Error f \<Longrightarrow>
   messages (apply_frames cl fs st) = append_content (concat (payloads fs)) (messages st)"
proof (induction fs arbitrary: st)
  case Nil
  show ?case by (simp add: apply_frames_def append_content_Nil)
next
  case (Cons f fs)
  then have ih: "\<And>s. messages (apply_frames cl fs s) =
      append_content (concat (payloads fs)) (messages s)"
    by simp
  from Cons.prems have "\<not> is_Error f" by simp
  then show ?case
    by (cases f) (simp_all add: apply_frames_Cons ih append_content_twice Let_def)
qed



lemma isLoading_apply_frames:
  "\<not> isLoading st \<Longrightarrow> \<not> isLoading (apply_frames cl fs st)"
proof (induction fs arbitrary: st)
  case Nil
  then show ?case by (simp add: apply_frames_def)
next
  case (Cons f fs)
  have "\<not> isLoading (apply_frame cl f st)"
    using Cons.prems by (cases f) (simp_all add: Let_def)
  then show ?case
    by (simp add: apply_frames_Cons Cons.IH)
qed

lemma isLoading_after_End: "End \<in> set fs \<Longrightarrow> \<not> isLoading (apply_frames cl fs st)"
proof (induction fs arbitrary: st)
  case Nil
  then show ?case by simp
next
  case (Cons f fs)
  show ?case
  proof (cases "f = End")
    case True
    have "\<not> isLoading (apply_frame cl End st)"
      by (simp add: Let_def)
    then have "\<not> isLoading (apply_frames cl fs (apply_frame cl End st))"
      by (rule isLoading_apply_frames)
    with True show ?thesis
      by (simp add: apply_frames_Cons del: apply_frame.simps)
  next
    case False
    with Cons.prems have "End \<in> set fs" by simp
    then have "\<not> isLoading (apply_frames cl fs (apply_frame cl f st))"
      by (rule Cons.IH)
    then show ?thesis
      by (simp add: apply_frames_Cons del: apply_frame.simps)
  qed
qed

subsection \<open>The session\<close>

lemma key_missing_not_Nil: "key_missing \<noteq> []"
  by (simp add: key_missing_def)

lemma request_failed_not_Nil: "request_failed \<noteq> []"
  by (simp add: request_failed_def)

lemma isLoading_catch_block: "\<not> isLoading (catch_block e err s)"
  by (simp add: catch_block_def Let_def)

lemma sendMessage_reads_cong:
  assumes "\<And>cl sig s. read_loop P cl sig [] rs s = read_loop P cl sig [] rs' s"
  shows "sendMessage P (e\<lparr>fetch := Response ok (Some rs)\<rparr>) st =
         sendMessage P (e\<lparr>fetch := Response ok (Some rs')\<rparr>) st"
  by (simp add: sendMessage_def try_block_def catch_block_def Let_def assms
      split: option.splits prod.splits exit.splits)

lemma sendMessage_accepted:
  assumes "trim (inputValue st) \<noteq> []" and "\<not> isLoading st"
    and "apiKey e = Some k" and "k \<noteq> []"
    and "fetch e = Response True (Some reads)"
  shows "sendMessage P e st =
     (let cl = \<lparr>c_messages = messages st, c_onSpeak = onSpeak e\<rparr>;
          s0 = apply_frames cl (frames_read P reads) (streaming e k st);
          s = (if stopped reads then stopGenerating s0 else s0)
      in case loop_exit reads of Throw err \<Rightarrow> catch_block e err s | _ \<Rightarrow> s)"
proof -
  let ?cl = "\<lparr>c_messages = messages st, c_onSpeak = onSpeak e\<rparr>"
  have "read_loop P ?cl (length (controllers st)) [] reads (streaming e k st) =
      (loop_exit reads,
       (if stopped reads
        then stopGenerating (apply_frames ?cl (frames_read P reads) (streaming e k st))
        else apply_frames ?cl (frames_read P reads) (streaming e k st)))"
    unfolding frames_read_def
    by (rule read_loop_eq) (simp_all add: streaming_def)
  moreover have "try_block P e ?cl (length (controllers st)) (trim (inputValue st))
      (st\<lparr>messages := messages st @
             [\<lparr>role = User, content = trim (inputValue st), timestamp = now_user e\<rparr>],
           inputValue := [], isLoading := True,
           controllers := controllers st @ [False],
           abortControllerRef := Some (length (controllers st))\<rparr>) =
      read_loop P ?cl (length (controllers st)) [] reads (streaming e k st)"
    using assms(3-5) by (simp add: try_block_def Let_def streaming_def)
  ultimately show ?thesis
    using assms(1,2)
    by (simp add: sendMessage_def Let_def split: exit.splits)
qed

lemma messages_stopGenerating [simp]: "messages (stopGenerating s) = messages s"
  by (simp add: stopGenerating_def Let_def split: option.splits)

lemma spoken_stopGenerating [simp]: "spoken (stopGenerating s) = spoken s"
  by (simp add: stopGenerating_def Let_def split: option.splits)

lemma append_content_streaming:
  "append_content d (messages (streaming e k st)) =
     messages st @ [\<lparr>role = User, content = trim (inputValue st), timestamp = now_user e\<rparr>,
                    \<lparr>role = Assistant, content = d, timestamp = now_assistant e\<rparr>]"
proof -
  have "messages (streaming e k st) =
      (messages st @ [\<lparr>role = User, content = trim (inputValue st), timestamp = now_user e\<rparr>]) @
      [\<lparr>role = Assistant, content = [], timestamp = now_assistant e\<rparr>]"
    by (simp add: streaming_def)
  then show ?thesis
    by (simp only: append_content_snoc) simp
qed

subsection \<open>Narration\<close>

text \<open>
  The text passed to \<^verbatim>\<open>onSpeak\<close> at an end frame is \<open>finalContent\<close> of the closure,
  that is, the content of the last message the transcript had when \<^verbatim>\<open>sendMessage\<close>
  was called, and not the content streamed in this session: on a transcript that was
  empty nothing is narrated, and on a later turn the previous answer is.
\<close>

lemma spoken_apply_frames:
  "spoken (apply_frames cl fs st) =
     spoken st @
     replicate (if finalContent cl \<noteq> [] \<and> c_onSpeak cl then count_list fs End else 0)
       (finalContent cl)"
proof (induction fs arbitrary: st)
  case Nil
  show ?case by (simp add: apply_frames_def)
next
  case (Cons f fs)
  show ?case
    by (cases f) (simp_all add: apply_frames_Cons Cons.IH Let_def replicate_app_Cons_same)
qed

lemma spoken_catch_block: "spoken (catch_block e err s) = spoken s"
  by (simp add: catch_block_def Let_def)

lemma spoken_sendMessage:
  assumes "trim (inputValue st) \<noteq> []" and "\<not> isLoading st"
    and "apiKey e = Some k" and "k \<noteq> []"
    and "fetch e = Response True (Some reads)"
  shows "spoken (sendMessage P e st) =
     spoken st @
     replicate
       (if finalContent \<lparr>c_messages = messages st, c_onSpeak = onSpeak e\<rparr> \<noteq> [] \<and> onSpeak e
        then count_list (frames_read P reads) End else 0)
       (finalContent \<lparr>c_messages = messages st, c_onSpeak = onSpeak e\<rparr>)"
proof -
  have "spoken (streaming e k st) = spoken st"
    by (simp add: streaming_def)
  then show ?thesis
    using sendMessage_accepted [OF assms, of P]
    by (cases "loop_exit reads")
      (simp_all add: Let_def spoken_apply_frames spoken_catch_block)
qed

section \<open>The claims\<close>

text \<open>
  C1 (chunk-split invariance of the frame decoder). Feeding the chunks of a stream in
  order, each appended to the retained buffer, split at newlines, the trailing partial
  line kept, yields the same frames and the same retained text as feeding the whole
  text as one chunk, wherever the chunk boundaries fall; and the read loop ends in the
  same state either way.
\<close>

theorem chunk_split_invariance:
  "feed_all P [] cs = feed P [] (concat cs) \<and>
   read_loop P cl sig [] (map Chunk cs @ rs) st =
   read_loop P cl sig [] (Chunk (concat cs) # rs) st"
proof
  show f: "feed_all P [] cs = feed P [] (concat cs)"
    by (rule feed_all_concat) simp
  show "read_loop P cl sig [] (map Chunk cs @ rs) st =
      read_loop P cl sig [] (Chunk (concat cs) # rs) st"
  proof (cases "aborted st sig")
    case True
    then show ?thesis
      by (simp only: read_loop_aborted)
  next
    case False
    then show ?thesis
      by (simp add: read_loop_chunks read_loop_Chunk f del: read_loop.simps)
  qed
qed

text \<open>
  C2 (content ordering). In a session whose request is accepted and whose stream
  carries no error frame, the assistant message appended for the session holds the
  concatenation of the content payloads in arrival order, however the loop is left;
  when no read is rejected, the transcript is the earlier transcript, the user message
  and that assistant message.
\<close>

theorem content_ordering:
  assumes "trim (inputValue st) \<noteq> []" and "\<not> isLoading st"
    and "apiKey e = Some k" and "k \<noteq> []"
    and "fetch e = Response True (Some reads)"
    and "\<forall>f \<in> set (frames_read P reads). \<not> is_Error f"
  shows "take (length (messages st) + 2) (messages (sendMessage P e st)) =
           messages st @
           [\<lparr>role = User, content = trim (inputValue st), timestamp = now_user e\<rparr>,
            \<lparr>role = Assistant, content = concat (payloads (frames_read P reads)),
             timestamp = now_assistant e\<rparr>] \<and>
         (\<not> rejected (loop_exit reads) \<longrightarrow>
            messages (sendMessage P e st) =
              messages st @
              [\<lparr>role = User, content = trim (inputValue st), timestamp = now_user e\<rparr>,
               \<lparr>role = Assistant, content = concat (payloads (frames_read P reads)),
                timestamp = now_assistant e\<rparr>])"
proof -
  let ?cl = "\<lparr>c_messages = messages st, c_onSpeak = onSpeak e\<rparr>"
  let ?t = "apply_frames ?cl (frames_read P reads) (streaming e k st)"
  let ?s = "if stopped reads then stopGenerating ?t else ?t"
  have "messages ?t =
      messages st @
      [\<lparr>role = User, content = trim (inputValue st), timestamp = now_user e\<rparr>,
       \<lparr>role = Assistant, content = concat (payloads (frames_read P reads)),
        timestamp = now_assistant e\<rparr>]"
    using assms(6) by (simp only: messages_apply_frames append_content_streaming)
  then have m: "messages ?s =
      messages st @
      [\<lparr>role = User, content = trim (inputValue st), timestamp = now_user e\<rparr>,
       \<lparr>role = Assistant, content = concat (payloads (frames_read P reads)),
        timestamp = now_assistant e\<rparr>]"
    by simp
  have s: "sendMessage P e st =
      (case loop_exit reads of Throw err \<Rightarrow> catch_block e err ?s | _ \<Rightarrow> ?s)"
    using sendMessage_accepted [OF assms(1-5), of P] by (simp only: Let_def)
  show ?thesis
  proof (cases "loop_exit reads")
    case (Throw err)
    then show ?thesis
      by (simp add: s catch_block_def Let_def m)
  qed (simp_all add: s m)
qed

text \<open>The payloads \<open>He\<close> and \<open>llo\<close>, in two chunks, give the assistant content \<open>Hello\<close>.\<close>

theorem content_ordering_witness:
  "messages (sendMessage ecma_parse
      (server [Chunk (content_line ''He''), Chunk (content_line ''llo''), Done]) idle) =
     [\<lparr>role = User, content = ''revenue?'', timestamp = 1\<rparr>,
      \<lparr>role = Assistant, content = ''Hello'', timestamp = 2\<rparr>]"
proof -
  let ?reads = "[Chunk (content_line ''He''), Chunk (content_line ''llo''), Done]"
  have h1: "trim (inputValue idle) \<noteq> []" by code_simp
  have h2: "\<not> isLoading idle" by code_simp
  have h3: "apiKey (server ?reads) = Some ''key''" by code_simp
  have h4: "''key'' \<noteq> []" by simp
  have h5: "fetch (server ?reads) = Response True (Some ?reads)" by code_simp
  have h6: "\<forall>f \<in> set (frames_read ecma_parse ?reads). \<not> is_Error f" by code_simp
  have h7: "\<not> rejected (loop_exit ?reads)" by code_simp
  have v: "messages idle @
      [\<lparr>role = User, content = trim (inputValue idle), timestamp = now_user (server ?reads)\<rparr>,
       \<lparr>role = Assistant, content = concat (payloads (frames_read ecma_parse ?reads)),
        timestamp = now_assistant (server ?reads)\<rparr>] =
     [\<lparr>role = User, content = ''revenue?'', timestamp = 1\<rparr>,
      \<lparr>role = Assistant, content = ''Hello'', timestamp = 2\<rparr>]"
    by code_simp
  from content_ordering [OF h1 h2 h3 h4 h5 h6] h7 v show ?thesis
    by simp
qed




text \<open>
  C4 (narration on completion). The claim is that a session ending with an end frame
  narrates once, with the final content of its assistant message. The code does not do
  that: line 114 reads \<open>messages\<close> from the closure, which is the transcript as it was
  before the turn. In the end-to-end scenario, on a transcript that was empty, the
  assistant message ends as \<open>Rev is up\<close>, the sink is supplied, and nothing is narrated;
  on a second turn with the same stream the assistant message ends as \<open>Rev is up\<close> and
  the sink receives \<open>Hello\<close>, the answer of the turn before.
\<close>

theorem narration_reads_stale_transcript:
  "sendMessage ecma_parse
     (server [Chunk (content_line ''Rev '' @ content_line ''is up'' @ end_line), Done]) idle =
     \<lparr>messages = [\<lparr>role = User, content = ''revenue?'', timestamp = 1\<rparr>,
                  \<lparr>role = Assistant, content = ''Rev is up'', timestamp = 2\<rparr>],
      inputValue = [], isLoading = False, abortControllerRef = Some 0,
      controllers = [False], spoken = [], console = [],
      fetched = [\<lparr>api_key = ''key'', body_message = ''revenue?'',
                  conversationHistory = [], signal = 0\<rparr>]\<rparr> \<and>
   messages (sendMessage ecma_parse
     (server [Chunk (content_line ''Rev '' @ content_line ''is up'' @ end_line), Done])
     second_turn) =
     [\<lparr>role = User, content = ''hi'', timestamp = 0\<rparr>,
      \<lparr>role = Assistant, content = ''Hello'', timestamp = 0\<rparr>,
      \<lparr>role = User, content = ''revenue?'', timestamp = 1\<rparr>,
      \<lparr>role = Assistant, content = ''Rev is up'', timestamp = 2\<rparr>] \<and>
   spoken (sendMessage ecma_parse
     (server [Chunk (content_line ''Rev '' @ content_line ''is up'' @ end_line), Done])
     second_turn) = [''Hello'']"
  by code_simp

text \<open>
  C5 (rejected request), as amended. When the key is absent or the response is not
  \<^verbatim>\<open>ok\<close>, no body is read and the empty assistant message of a streaming session is
  never appended, but the handler appends one failure notice with the role of the
  assistant after the user message; the loading flag is cleared, the error is logged,
  nothing is narrated and at most one request was issued.
\<close>

theorem rejected_request_notice:
  assumes "trim (inputValue st) \<noteq> []" and "\<not> isLoading st"
    and "apiKey e = None \<or> apiKey e = Some [] \<or> (\<exists>body. fetch e = Response False body)"
  shows "messages (sendMessage P e st) =
           messages st @
           [\<lparr>role = User, content = trim (inputValue st), timestamp = now_user e\<rparr>,
            \<lparr>role = Assistant,
             content = warning @
               (if apiKey e = None \<or> apiKey e = Some [] then key_missing else request_failed),
             timestamp = now_error e\<rparr>] \<and>
         \<not> isLoading (sendMessage P e st) \<and>
         spoken (sendMessage P e st) = spoken st \<and>
         console (sendMessage P e st) =
           console st @
           [ErrorLog ''[ChatBox] Error:''
              (new_Error (if apiKey e = None \<or> apiKey e = Some [] then key_missing
                          else request_failed))] \<and>
         length (fetched (sendMessage P e st)) \<le> length (fetched st) + 1"
proof (cases "apiKey e = None \<or> apiKey e = Some []")
  case True
  with assms(1,2) show ?thesis
    by (auto simp: sendMessage_def try_block_def catch_block_def Let_def new_Error_def
        key_missing_not_Nil)
next
  case False
  with assms(3) obtain body where "fetch e = Response False body"
    by blast
  with False assms(1,2) show ?thesis
    by (auto simp: sendMessage_def try_block_def catch_block_def Let_def new_Error_def
        request_failed_not_Nil)
qed

text \<open>No key is stored.\<close>

theorem rejected_request_notice_witness:
  "messages (sendMessage ecma_parse ((server [])\<lparr>apiKey := None\<rparr>) idle) =
     [\<lparr>role = User, content = ''revenue?'', timestamp = 1\<rparr>,
      \<lparr>role = Assistant, content = warning @ key_missing, timestamp = 3\<rparr>] \<and>
   \<not> isLoading (sendMessage ecma_parse ((server [])\<lparr>apiKey := None\<rparr>) idle) \<and>
   fetched (sendMessage ecma_parse ((server [])\<lparr>apiKey := None\<rparr>) idle) = []"
proof -
  let ?e = "(server [])\<lparr>apiKey := None\<rparr>"
  have h1: "trim (inputValue idle) \<noteq> []" by code_simp
  have h2: "\<not> isLoading idle" by code_simp
  have h3: "apiKey ?e = None \<or> apiKey ?e = Some [] \<or> (\<exists>body. fetch ?e = Response False body)"
    by simp
  have v: "messages idle = []" "trim (inputValue idle) = ''revenue?''" "now_user ?e = 1"
    "now_error ?e = 3" "apiKey ?e = None"
    by code_simp+
  have f: "fetched (sendMessage ecma_parse ?e idle) = []"
    by code_simp
  from rejected_request_notice [OF h1 h2 h3, of ecma_parse] v f show ?thesis
    by simp
qed

text \<open>
  The claim as stated fails: after a response that is not \<^verbatim>\<open>ok\<close> the transcript
  holds the user message and an assistant message.
\<close>

theorem rejected_request_counterexample:
  "messages (sendMessage ecma_parse ((server [])\<lparr>fetch := Response False (Some [])\<rparr>) idle) =
     [\<lparr>role = User, content = ''revenue?'', timestamp = 1\<rparr>,
      \<lparr>role = Assistant, content = warning @ request_failed, timestamp = 3\<rparr>]"
  by code_simp

text \<open>
  C6 (silent drop of non-conforming lines). A line without the prefix \<open>data: \<close>, or
  whose body \<^verbatim>\<open>JSON.parse\<close> rejects, yields no frame; the decoder returns the same
  frames and buffer, and \<^verbatim>\<open>sendMessage\<close> ends in the same state (so nothing is
  thrown and nothing is terminated), as if the line were absent from the stream.
\<close>

theorem silent_drop:
  assumes "\<not> startsWith bad ''data: '' \<or> P (slice 6 bad) = None"
    and "newline \<notin> set bad"
    and "before = [] \<or> last before = newline"
  shows "decode_line P bad = None \<and>
         feed P [] (before @ bad @ newline # rest) = feed P [] (before @ rest) \<and>
         sendMessage P (e\<lparr>fetch := Response ok (Some (Chunk (before @ bad @ newline # rest) # rs))\<rparr>) st =
         sendMessage P (e\<lparr>fetch := Response ok (Some (Chunk (before @ rest) # rs))\<rparr>) st"
proof -
  have d: "decode_line P bad = None"
    using assms(1) by (rule decode_line_None)
  have f: "feed P [] (before @ bad @ newline # rest) = feed P [] (before @ rest)"
    using d assms(2,3) by (rule feed_skips)
  have "\<And>cl sig s. read_loop P cl sig [] (Chunk (before @ bad @ newline # rest) # rs) s =
      read_loop P cl sig [] (Chunk (before @ rest) # rs) s"
    by (simp only: read_loop_Chunk f)
  then have "sendMessage P (e\<lparr>fetch := Response ok (Some (Chunk (before @ bad @ newline # rest) # rs))\<rparr>) st =
         sendMessage P (e\<lparr>fetch := Response ok (Some (Chunk (before @ rest) # rs))\<rparr>) st"
    by (rule sendMessage_reads_cong)
  with d f show ?thesis by simp
qed

text \<open>The line \<^verbatim>\<open>data: {not json\<close> between two content lines.\<close>

theorem silent_drop_witness:
  "sendMessage ecma_parse
     (server [Chunk (content_line ''a'' @ ''data: {not json'' @ newline # content_line ''b''),
              Done]) idle =
   sendMessage ecma_parse (server [Chunk (content_line ''a'' @ content_line ''b''), Done]) idle \<and>
   messages (sendMessage ecma_parse
     (server [Chunk (content_line ''a'' @ ''data: {not json'' @ newline # content_line ''b''),
              Done]) idle) =
     [\<lparr>role = User, content = ''revenue?'', timestamp = 1\<rparr>,
      \<lparr>role = Assistant, content = ''ab'', timestamp = 2\<rparr>]"
proof -
  have h1: "\<not> startsWith ''data: {not json'' ''data: '' \<or>
      ecma_parse (slice 6 ''data: {not json'') = None"
    by code_simp
  have h2: "newline \<notin> set ''data: {not json''"
    by code_simp
  have h3: "content_line ''a'' = [] \<or> last (content_line ''a'') = newline"
    by code_simp
  have e: "\<And>reads. (server [])\<lparr>fetch := Response True (Some reads)\<rparr> = server reads"
    by (simp add: server_def)
  have v: "messages (sendMessage ecma_parse
      (server [Chunk (content_line ''a'' @ content_line ''b''), Done]) idle) =
     [\<lparr>role = User, content = ''revenue?'', timestamp = 1\<rparr>,
      \<lparr>role = Assistant, content = ''ab'', timestamp = 2\<rparr>]"
    by code_simp
  from silent_drop [where P = ecma_parse and bad = "''data: {not json''"
      and before = "content_line ''a''" and rest = "content_line ''b''"
      and e = "server []" and ok = True and rs = "[Done]" and st = idle, OF h1 h2 h3]
  have "sendMessage ecma_parse
     (server [Chunk (content_line ''a'' @ ''data: {not json'' @ newline # content_line ''b''),
              Done]) idle =
   sendMessage ecma_parse (server [Chunk (content_line ''a'' @ content_line ''b''), Done]) idle"
    by (simp only: e)
  with v show ?thesis
    by simp
qed

text \<open>
  C7 (cancellation preserves partial content). The user clicks the stop button while
  the read that follows the chunks \<open>cs\<close> is pending. \<^verbatim>\<open>stopGenerating\<close> aborts the
  controller that line 43 stored in the ref, whose signal line 62 gave to \<^verbatim>\<open>fetch\<close>,
  so the pending read rejects and the handler takes the branch of line 136. The session
  ends in exactly the state it had reached after \<open>cs\<close>, with the controller aborted, the
  loading flag cleared and \<open>Request aborted\<close> logged: the transcript keeps the content
  streamed so far, no notice is appended, and whatever the stream would have delivered
  after the click is never processed.
\<close>

theorem cancel_preserves_partial_content:
  assumes "trim (inputValue st) \<noteq> []" and "\<not> isLoading st"
    and "apiKey e = Some k" and "k \<noteq> []"
  shows "sendMessage P (e\<lparr>fetch := Response True (Some (map Chunk cs @ StopClicked # rs))\<rparr>) st =
         (let s = sendMessage P (e\<lparr>fetch := Response True (Some (map Chunk cs))\<rparr>) st
          in s\<lparr>isLoading := False,
               controllers := controllers st @ [True],
               console := console s @ [Log ''Request aborted'']\<rparr>)"
proof -
  let ?cl = "\<lparr>c_messages = messages st, c_onSpeak = onSpeak e\<rparr>"
  let ?e1 = "e\<lparr>fetch := Response True (Some (map Chunk cs @ StopClicked # rs))\<rparr>"
  let ?e2 = "e\<lparr>fetch := Response True (Some (map Chunk cs))\<rparr>"
  let ?s = "apply_frames ?cl (frames_read P (map Chunk cs)) (streaming e k st)"
  have f: "frames_read P (map Chunk cs @ StopClicked # rs) = frames_read P (map Chunk cs)"
    by (simp add: frames_read_def)
  have s1: "streaming ?e1 k st = streaming e k st" and s2: "streaming ?e2 k st = streaming e k st"
    by (simp_all add: streaming_def)
  have a: "sendMessage P ?e1 st = catch_block ?e1 AbortError (stopGenerating ?s)"
    using sendMessage_accepted [where e = ?e1 and st = st and k = k and P = P
        and reads = "map Chunk cs @ StopClicked # rs"] assms
    by (simp add: Let_def f s1)
  have b: "sendMessage P ?e2 st = ?s"
    using sendMessage_accepted [where e = ?e2 and st = st and k = k and P = P
        and reads = "map Chunk cs"] assms
    by (simp add: Let_def s2)
  have r: "abortControllerRef (streaming e k st) = Some (length (controllers st))"
    and c: "controllers (streaming e k st) = controllers st @ [False]"
    by (simp_all add: streaming_def)
  show ?thesis
    by (simp add: a b r c stopGenerating_def catch_block_def Let_def AbortError_def abort_def)
qed

text \<open>
  One content frame \<open>partial\<close>, then the click; the chunk the network delivers after it
  is not read.
\<close>

theorem cancel_preserves_partial_content_witness:
  "sendMessage ecma_parse
      (server [Chunk (content_line ''partial''), StopClicked,
               Chunk (content_line ''more'')]) idle =
     \<lparr>messages = [\<lparr>role = User, content = ''revenue?'', timestamp = 1\<rparr>,
                  \<lparr>role = Assistant, content = ''partial'', timestamp = 2\<rparr>],
      inputValue = [], isLoading = False, abortControllerRef = Some 0,
      controllers = [True], spoken = [],
      console = [Log ''Request aborted''],
      fetched = [\<lparr>api_key = ''key'', body_message = ''revenue?'',
                  conversationHistory = [], signal = 0\<rparr>]\<rparr>"
proof -
  have h1: "trim (inputValue idle) \<noteq> []" by code_simp
  have h2: "\<not> isLoading idle" by code_simp
  have h3: "apiKey (server []) = Some ''key''" by code_simp
  have h4: "''key'' \<noteq> []" by simp
  have e: "\<And>reads. (server [])\<lparr>fetch := Response True (Some reads)\<rparr> = server reads"
    by (simp add: server_def)
  have v: "(let s = sendMessage ecma_parse (server (map Chunk [content_line ''partial''])) idle
            in s\<lparr>isLoading := False,
                 controllers := controllers idle @ [True],
                 console := console s @ [Log ''Request aborted'']\<rparr>) =
     \<lparr>messages = [\<lparr>role = User, content = ''revenue?'', timestamp = 1\<rparr>,
                  \<lparr>role = Assistant, content = ''partial'', timestamp = 2\<rparr>],
      inputValue = [], isLoading = False, abortControllerRef = Some 0,
      controllers = [True], spoken = [],
      console = [Log ''Request aborted''],
      fetched = [\<lparr>api_key = ''key'', body_message = ''revenue?'',
                  conversationHistory = [], signal = 0\<rparr>]\<rparr>"
    by code_simp
  from cancel_preserves_partial_content [where st = idle and e = "server []" and k = "''key''"
      and P = ecma_parse and cs = "[content_line ''partial'']"
      and rs = "[Chunk (content_line ''more'')]", OF h1 h2 h3 h4]
  have "sendMessage ecma_parse
      (server (map Chunk [content_line ''partial''] @
         StopClicked # [Chunk (content_line ''more'')])) idle =
     (let s = sendMessage ecma_parse (server (map Chunk [content_line ''partial''])) idle
      in s\<lparr>isLoading := False,
           controllers := controllers idle @ [True],
           console := console s @ [Log ''Request aborted'']\<rparr>)"
    by (simp only: e)
  with v show ?thesis
    by simp
qed

text \<open>
  C8 (flush at stream end), as amended. Nothing is flushed: text that follows the last
  newline of the stream never reaches \<open>decode_line\<close>. The session ends in the same
  state as without that text, and the frames read are those of the lines that a newline
  terminates.
\<close>

theorem residual_line_discarded:
  assumes "newline \<notin> set residue"
  shows "sendMessage P (e\<lparr>fetch := Response ok (Some (map Chunk cs @ Chunk residue # Done # rs))\<rparr>) st =
         sendMessage P (e\<lparr>fetch := Response ok (Some (map Chunk cs @ Done # rs))\<rparr>) st \<and>
         frames_read P (map Chunk cs @ Chunk residue # Done # rs) =
           List.map_filter (decode_line P) (butlast (split newline (concat cs)))"
proof
  show "sendMessage P (e\<lparr>fetch := Response ok (Some (map Chunk cs @ Chunk residue # Done # rs))\<rparr>) st =
      sendMessage P (e\<lparr>fetch := Response ok (Some (map Chunk cs @ Done # rs))\<rparr>) st"
    by (rule sendMessage_reads_cong) (rule read_loop_residue [OF assms])
  have n: "newline \<notin> set (snd (feed_all P [] cs))"
    by (rule snd_feed_all_no_newline) simp
  have "chunks_read (map Chunk cs @ Chunk residue # Done # rs) = cs @ [residue]"
    by simp
  then have "frames_read P (map Chunk cs @ Chunk residue # Done # rs) =
      fst (feed P [] (concat cs @ residue))"
    using feed_all_concat [of "[]" P "cs @ [residue]"] by (simp add: frames_read_def)
  also have "\<dots> = fst (feed P [] (concat cs))"
    using feed_append [of P "[]" "concat cs" residue]
      feed_no_newline [of "snd (feed P [] (concat cs))" residue P]
      snd_feed_no_newline [of P "[]" "concat cs"] assms
    by simp
  also have "\<dots> = List.map_filter (decode_line P) (butlast (split newline (concat cs)))"
    by (simp add: feed_def Let_def)
  finally show "frames_read P (map Chunk cs @ Chunk residue # Done # rs) =
      List.map_filter (decode_line P) (butlast (split newline (concat cs)))" .
qed

text \<open>An end event without its newline leaves the loading flag set.\<close>

theorem residual_line_discarded_witness:
  "sendMessage ecma_parse
     (server [Chunk (content_line ''a''), Chunk ''data: {\"type\":\"end\"}'', Done]) idle =
   sendMessage ecma_parse (server [Chunk (content_line ''a''), Done]) idle \<and>
   isLoading (sendMessage ecma_parse
     (server [Chunk (content_line ''a''), Chunk ''data: {\"type\":\"end\"}'', Done]) idle)"
proof -
  have h: "newline \<notin> set ''data: {\"type\":\"end\"}''"
    by code_simp
  have e: "\<And>reads. (server [])\<lparr>fetch := Response True (Some reads)\<rparr> = server reads"
    by (simp add: server_def)
  have v: "isLoading (sendMessage ecma_parse (server [Chunk (content_line ''a''), Done]) idle)"
    by code_simp
  from residual_line_discarded [where residue = "''data: {\"type\":\"end\"}''" and P = ecma_parse
      and e = "server []" and ok = True and cs = "[content_line ''a'']" and rs = "[]"
      and st = idle, OF h]
  have "sendMessage ecma_parse
     (server (map Chunk [content_line ''a''] @ Chunk ''data: {\"type\":\"end\"}'' # Done # [])) idle =
   sendMessage ecma_parse (server (map Chunk [content_line ''a''] @ Done # [])) idle"
    by (simp only: e)
  with v show ?thesis
    by simp
qed

text \<open>
  The claim as stated fails: a complete content event that lacks its newline decodes to
  a frame, but the session never applies it.
\<close>

theorem flush_counterexample:
  "decode_line ecma_parse ''data: {\"type\":\"content\",\"data\":\"x\"}'' = Some (Content ''x'') \<and>
   messages (sendMessage ecma_parse
      (server [Chunk ''data: {\"type\":\"content\",\"data\":\"x\"}'', Done]) idle) =
     [\<lparr>role = User, content = ''revenue?'', timestamp = 1\<rparr>,
      \<lparr>role = Assistant, content = [], timestamp = 2\<rparr>]"
  by code_simp

text \<open>
  C9 (start preconditions). A call of \<^verbatim>\<open>sendMessage\<close> whose input is empty after
  trimming, or made while \<open>isLoading\<close> is set, returns at line 30: the state and every
  trace are unchanged, so no message is appended and no request is issued.
\<close>

theorem start_preconditions:
  "trim (inputValue st) = [] \<or> isLoading st \<Longrightarrow> sendMessage P e st = st"
  by (auto simp: sendMessage_def Let_def)

text \<open>An input of blanks, and a call while a session is in flight.\<close>

theorem start_preconditions_witness:
  "sendMessage ecma_parse (server [Chunk end_line, Done]) (idle\<lparr>inputValue := ''   ''\<rparr>) =
     idle\<lparr>inputValue := ''   ''\<rparr> \<and>
   sendMessage ecma_parse (server [Chunk end_line, Done]) (idle\<lparr>isLoading := True\<rparr>) =
     idle\<lparr>isLoading := True\<rparr>"
proof -
  have h1: "trim (inputValue (idle\<lparr>inputValue := ''   ''\<rparr>)) = [] \<or>
      isLoading (idle\<lparr>inputValue := ''   ''\<rparr>)"
    by code_simp
  have h2: "trim (inputValue (idle\<lparr>isLoading := True\<rparr>)) = [] \<or>
      isLoading (idle\<lparr>isLoading := True\<rparr>)"
    by simp
  from start_preconditions [OF h1] start_preconditions [OF h2] show ?thesis
    by simp
qed

text \<open>
  C10 (implicit role guard). Applying a frame changes no entry of the transcript but
  the last one, changes no role and no length, leaves every user message as it was, and
  leaves the whole transcript unchanged when it is empty or its last entry is not an
  assistant message.
\<close>

theorem role_guard:
  "(messages st = [] \<or> role (last (messages st)) \<noteq> Assistant \<longrightarrow>
      messages (apply_frame cl f st) = messages st) \<and>
   length (messages (apply_frame cl f st)) = length (messages st) \<and>
   butlast (messages (apply_frame cl f st)) = butlast (messages st) \<and>
   map role (messages (apply_frame cl f st)) = map role (messages st) \<and>
   (\<forall>i < length (messages st).
      role (messages st ! i) = User \<longrightarrow> messages (apply_frame cl f st) ! i = messages st ! i)"
proof (cases "messages st" rule: rev_cases)
  case Nil
  then show ?thesis
    by (cases f) (simp_all add: append_content_def show_error_def Let_def)
next
  case (snoc ms m)
  then show ?thesis
    by (cases f) (auto simp: append_content_snoc show_error_snoc Let_def nth_append)
qed

text \<open>A content frame and an error frame on a transcript that ends with a user message.\<close>

theorem role_guard_witness:
  "messages (apply_frame \<lparr>c_messages = [], c_onSpeak = True\<rparr> (Content ''x'')
      (idle\<lparr>messages := [\<lparr>role = User, content = ''hi'', timestamp = 1\<rparr>]\<rparr>)) =
     [\<lparr>role = User, content = ''hi'', timestamp = 1\<rparr>] \<and>
   messages (apply_frame \<lparr>c_messages = [], c_onSpeak = True\<rparr> (Error ''x'')
      (idle\<lparr>messages := [\<lparr>role = User, content = ''hi'', timestamp = 1\<rparr>]\<rparr>)) =
     [\<lparr>role = User, content = ''hi'', timestamp = 1\<rparr>]"
proof -
  let ?st = "idle\<lparr>messages := [\<lparr>role = User, content = ''hi'', timestamp = 1\<rparr>]\<rparr>"
  have h: "messages ?st = [] \<or> role (last (messages ?st)) \<noteq> Assistant"
    by simp
  have m: "messages ?st = [\<lparr>role = User, content = ''hi'', timestamp = 1\<rparr>]"
    by simp
  from role_guard [of ?st "\<lparr>c_messages = [], c_onSpeak = True\<rparr>" "Content ''x''"] h
  have a: "messages (apply_frame \<lparr>c_messages = [], c_onSpeak = True\<rparr> (Content ''x'') ?st) =
      messages ?st"
    by blast
  from role_guard [of ?st "\<lparr>c_messages = [], c_onSpeak = True\<rparr>" "Error ''x''"] h
  have b: "messages (apply_frame \<lparr>c_messages = [], c_onSpeak = True\<rparr> (Error ''x'') ?st) =
      messages ?st"
    by blast
  from a b m show ?thesis
    by simp
qed

end
